theory Spec2Isabelle
  imports Main
begin

section \<open>The video styler page: data model\<close>

text \<open>
  The development follows \<^verbatim>\<open>src/components/Processor.tsx\<close>. The module
  \<^verbatim>\<open>../lib/ffmpeg\<close> that the component imports (\<^verbatim>\<open>buildArgs\<close>,
  \<^verbatim>\<open>getFFmpeg\<close>, \<^verbatim>\<open>writeInputFile\<close>, \<^verbatim>\<open>readOutputFile\<close>, the type
  \<^verbatim>\<open>StyleKey\<close>) is not part of the sources at hand. Its functions are the external
  engine's surface; they enter the model as parameters.
\<close>

text \<open>
  Modelled from the spec: the declaration of the type \<^verbatim>\<open>StyleKey\<close> is in the missing
  module. The spec speaks of four preset styles, and the catalog \<^verbatim>\<open>STYLES\<close> of the
  component uses exactly these four string literals as keys.
\<close>

datatype StyleKey = cinematic | action | aesthetic | realistic

record StyleEntry =
  key :: StyleKey
  name :: string
  desc :: string

definition STYLES :: "StyleEntry list" where
  "STYLES =
    [\<lparr>key = cinematic, name = ''Cinematic Hero'', desc = ''Deep shadows, neon, slow-mo vibe''\<rparr>,
     \<lparr>key = action, name = ''Action Style'', desc = ''Fast, punchy, sharpened, stabilized''\<rparr>,
     \<lparr>key = aesthetic, name = ''Aesthetic Smooth'', desc = ''Pastel, creamy, dreamy glow''\<rparr>,
     \<lparr>key = realistic, name = ''Realistic Upgrade'', desc = ''Clean, natural, 4K upscale''\<rparr>]"

text \<open>A blob is a sequence of bytes; a file is a blob with a name.\<close>

datatype Blob = Blob (bytes: "nat list")

datatype File = File (fileName: string) (fileBlob: Blob)

text \<open>The seven \<^verbatim>\<open>useState\<close> cells of the component (lines 14 to 20).\<close>

record state =
  theFile :: "File option"
  inputUrl :: "string option"
  outputUrl :: "string option"
  busy :: bool
  progressText :: string
  style :: StyleKey
  slowMo :: bool

definition initial :: state where
  "initial = \<lparr>theFile = None, inputUrl = None, outputUrl = None, busy = False,
     progressText = [], style = cinematic, slowMo = True\<rparr>"

text \<open>
  A value thrown by an awaited call. The handler reads only \<^verbatim>\<open>e?.message\<close>, so a
  thrown value is its message: \<open>None\<close> when the value is null or undefined or has
  no message, \<open>Some m\<close> for a string message.
\<close>

datatype thrown = Thrown (message: "string option")

text \<open>
  What an awaited engine call does: the log lines the engine emits while the call is
  pending, then the value it resolves to, or the value it rejects with.
\<close>

type_synonym 'a outcome = "string list \<times> (thrown + 'a)"

text \<open>
  The external collaborators of one processing run. \<open>exec n args\<close> is the
  \<open>n\<close>-th call of \<^verbatim>\<open>ffmpeg.exec\<close> in the run.
\<close>

record engine =
  getFFmpeg :: "unit outcome"
  writeInputFile :: "File \<Rightarrow> string \<Rightarrow> unit outcome"
  exec :: "nat \<Rightarrow> string list \<Rightarrow> unit outcome"
  readOutputFile :: "string \<Rightarrow> Blob outcome"

text \<open>The calls into the engine, as the run issues them.\<close>

datatype call =
    GetFFmpeg
  | WriteInputFile File string
  | Exec "string list"
  | ReadOutputFile string

text \<open>A trace pairs each call with the state of the component when the call is issued.\<close>

type_synonym trace = "(call \<times> state) list"

section \<open>File intake\<close>

text \<open>\<^verbatim>\<open>onPickFile\<close>, lines 24 to 29. \<open>createObjectURL\<close> is the browser's.\<close>

definition onPickFile :: "(Blob \<Rightarrow> string) \<Rightarrow> File \<Rightarrow> state \<Rightarrow> state" where
  "onPickFile createObjectURL f s =
     s\<lparr>theFile := Some f, inputUrl := Some (createObjectURL (fileBlob f)), outputUrl := None\<rparr>"

text \<open>
  \<^verbatim>\<open>e.target.files?.[0]\<close> and \<^verbatim>\<open>e.dataTransfer.files?.[0]\<close>: the file list may be
  absent, and it may be empty.
\<close>

definition first_file :: "File list option \<Rightarrow> File option" where
  "first_file files = (case files of None \<Rightarrow> None | Some [] \<Rightarrow> None | Some (f # _) \<Rightarrow> Some f)"

definition onFileInput :: "(Blob \<Rightarrow> string) \<Rightarrow> File list option \<Rightarrow> state \<Rightarrow> state" where
  "onFileInput createObjectURL files s =
     (case first_file files of Some f \<Rightarrow> onPickFile createObjectURL f s | None \<Rightarrow> s)"

definition onDrop :: "(Blob \<Rightarrow> string) \<Rightarrow> File list option \<Rightarrow> state \<Rightarrow> state" where
  "onDrop createObjectURL files s =
     (case first_file files of Some f \<Rightarrow> onPickFile createObjectURL f s | None \<Rightarrow> s)"

text \<open>\<^verbatim>\<open>isReady\<close>, line 44.\<close>

definition isReady :: "state \<Rightarrow> bool" where
  "isReady s = (theFile s \<noteq> None \<and> \<not> busy s)"

section \<open>The log callback\<close>

text \<open>
  \<^verbatim>\<open>/frame=/.test(m)\<close>: an unanchored search for a literal pattern, trying each start
  position from the left.
\<close>

fun matches_here :: "string \<Rightarrow> string \<Rightarrow> bool" where
  "matches_here [] m = True"
| "matches_here (p # ps) [] = False"
| "matches_here (p # ps) (c # cs) = (p = c \<and> matches_here ps cs)"

fun regex_test :: "string \<Rightarrow> string \<Rightarrow> bool" where
  "regex_test p [] = matches_here p []"
| "regex_test p (c # cs) = (matches_here p (c # cs) \<or> regex_test p cs)"

text \<open>The callback handed to \<^verbatim>\<open>getFFmpeg\<close>, lines 51 to 53.\<close>

definition onLog :: "string \<Rightarrow> state \<Rightarrow> state" where
  "onLog m s = (if regex_test ''frame='' m then s\<lparr>progressText := m\<rparr> else s)"

text \<open>The spec's wording: the message contains the substring.\<close>

definition contains_substring :: "string \<Rightarrow> string \<Rightarrow> bool" where
  "contains_substring p m = (\<exists>u v. m = u @ p @ v)"

text \<open>The engine emits a sequence of log lines while a call is pending.\<close>

definition emit :: "string list \<Rightarrow> state \<Rightarrow> state" where
  "emit ms s = foldl (\<lambda>t m. onLog m t) s ms"

section \<open>The processing run\<close>

text \<open>The four literal fallback argument lists, lines 64 to 72.\<close>

definition fallbackArgs :: "StyleKey \<Rightarrow> string list" where
  "fallbackArgs sty =
    (if sty = action then
       [''-i'', ''input.mp4'', ''-vf'',
        ''format=yuv420p,eq=contrast=1.3:saturation=1.15:gamma=0.92,unsharp=5:5:1.1'',
        ''-c:v'', ''mpeg4'', ''-q:v'', ''5'', ''-an'', ''-movflags'', ''+faststart'', ''output.mp4'']
     else if sty = aesthetic then
       [''-i'', ''input.mp4'', ''-vf'',
        ''format=yuv420p,hqdn3d=1.5:1.5:6:6,eq=contrast=1.05:brightness=0.03:saturation=0.96'',
        ''-c:v'', ''mpeg4'', ''-q:v'', ''5'', ''-an'', ''-movflags'', ''+faststart'', ''output.mp4'']
     else if sty = realistic then
       [''-i'', ''input.mp4'', ''-vf'',
        ''format=yuv420p,hqdn3d=1.0:1.0:4:4,eq=contrast=1.06:saturation=1.02,unsharp=3:3:0.6,scale=3840:-2:flags=lanczos'',
        ''-c:v'', ''mpeg4'', ''-q:v'', ''5'', ''-an'', ''-movflags'', ''+faststart'', ''output.mp4'']
     else
       [''-i'', ''input.mp4'', ''-vf'',
        ''format=yuv420p,eq=contrast=1.2:brightness=-0.03:saturation=1.08:gamma=0.95,curves=preset=medium_contrast,vignette=PI/6:0.5'',
        ''-c:v'', ''mpeg4'', ''-q:v'', ''5'', ''-an'', ''-movflags'', ''+faststart'', ''output.mp4''])"

text \<open>
  The inner \<^verbatim>\<open>try\<close>, lines 59 to 73: the primary call with the arguments of
  \<^verbatim>\<open>buildArgs\<close>; when it rejects, one call with the fallback arguments, whose own
  rejection leaves the inner handler. The result is the state, the calls made, and the
  value thrown, if any. \<open>buildArgs\<close> is the table of the missing module.
\<close>

definition exec_stage ::
  "(StyleKey \<Rightarrow> bool \<Rightarrow> string list) \<Rightarrow> engine \<Rightarrow> StyleKey \<Rightarrow> bool \<Rightarrow> state
     \<Rightarrow> state \<times> trace \<times> thrown option" where
  "exec_stage buildArgs eng sty slo s =
    (let args = buildArgs sty slo in
     case exec eng 0 args of
       (ms, Inr _) \<Rightarrow> (emit ms s, [(Exec args, s)], None)
     | (ms, Inl err) \<Rightarrow>
         (let s1 = emit ms s; fa = fallbackArgs sty in
          case exec eng 1 fa of
            (ms2, Inr _) \<Rightarrow> (emit ms2 s1, [(Exec args, s), (Exec fa, s1)], None)
          | (ms2, Inl err2) \<Rightarrow> (emit ms2 s1, [(Exec args, s), (Exec fa, s1)], Some err2)))"

text \<open>The last stage of the outer \<^verbatim>\<open>try\<close>, lines 75 to 79.\<close>

definition export_stage ::
  "(Blob \<Rightarrow> string) \<Rightarrow> engine \<Rightarrow> state \<Rightarrow> state \<times> trace \<times> thrown option" where
  "export_stage createObjectURL eng s =
    (let s1 = s\<lparr>progressText := ''Exporting...''\<rparr> in
     case readOutputFile eng ''output.mp4'' of
       (ms, Inl err) \<Rightarrow> (emit ms s1, [(ReadOutputFile ''output.mp4'', s1)], Some err)
     | (ms, Inr blob) \<Rightarrow>
         ((emit ms s1)\<lparr>outputUrl := Some (createObjectURL blob), progressText := ''Done''\<rparr>,
          [(ReadOutputFile ''output.mp4'', s1)], None))"

text \<open>
  The body of the outer \<^verbatim>\<open>try\<close>, lines 51 to 79, with the file, the style and the
  sub-option the callback closed over. A rejection at any stage skips the rest.
\<close>

definition try_body ::
  "(StyleKey \<Rightarrow> bool \<Rightarrow> string list) \<Rightarrow> (Blob \<Rightarrow> string) \<Rightarrow> engine
     \<Rightarrow> File \<Rightarrow> StyleKey \<Rightarrow> bool \<Rightarrow> state \<Rightarrow> state \<times> trace \<times> thrown option" where
  "try_body buildArgs createObjectURL eng f sty slo s =
    (case getFFmpeg eng of
       (ms0, Inl err) \<Rightarrow> (emit ms0 s, [(GetFFmpeg, s)], Some err)
     | (ms0, Inr _) \<Rightarrow>
         (let s1 = (emit ms0 s)\<lparr>progressText := ''Preparing input...''\<rparr> in
          case writeInputFile eng f ''input.mp4'' of
            (ms1, Inl err) \<Rightarrow>
              (emit ms1 s1, [(GetFFmpeg, s), (WriteInputFile f ''input.mp4'', s1)], Some err)
          | (ms1, Inr _) \<Rightarrow>
              (let s2 = (emit ms1 s1)\<lparr>progressText := ''Applying style...''\<rparr> in
               case exec_stage buildArgs eng sty slo s2 of
                 (s3, t3, Some err) \<Rightarrow>
                   (s3, [(GetFFmpeg, s), (WriteInputFile f ''input.mp4'', s1)] @ t3, Some err)
               | (s3, t3, None) \<Rightarrow>
                   (case export_stage createObjectURL eng s3 of
                      (s4, t4, r) \<Rightarrow>
                        (s4, [(GetFFmpeg, s), (WriteInputFile f ''input.mp4'', s1)] @ t3 @ t4,
                         r)))))"

text \<open>\<^verbatim>\<open>"Failed: " + (e?.message || "Unknown error")\<close>, line 82: the empty string is falsy.\<close>

definition failure_text :: "thrown \<Rightarrow> string" where
  "failure_text e =
     ''Failed: '' @
       (case message e of
          None \<Rightarrow> ''Unknown error''
        | Some m \<Rightarrow> if m = [] then ''Unknown error'' else m)"

text \<open>Lines 48 and 49: what \<^verbatim>\<open>process\<close> does before its first \<^verbatim>\<open>await\<close>.\<close>

definition process_start :: "state \<Rightarrow> state" where
  "process_start s = s\<lparr>busy := True, progressText := ''Loading ffmpeg...''\<rparr>"

text \<open>Lines 50 to 85: the \<^verbatim>\<open>try\<close>, the \<^verbatim>\<open>catch\<close> and the \<^verbatim>\<open>finally\<close>.\<close>

definition process_rest ::
  "(StyleKey \<Rightarrow> bool \<Rightarrow> string list) \<Rightarrow> (Blob \<Rightarrow> string) \<Rightarrow> engine
     \<Rightarrow> File \<Rightarrow> StyleKey \<Rightarrow> bool \<Rightarrow> state \<Rightarrow> state \<times> trace" where
  "process_rest buildArgs createObjectURL eng f sty slo s =
    (case try_body buildArgs createObjectURL eng f sty slo s of
       (s1, t, None) \<Rightarrow> (s1\<lparr>busy := False\<rparr>, t)
     | (s1, t, Some e) \<Rightarrow> (s1\<lparr>progressText := failure_text e, busy := False\<rparr>, t))"

text \<open>\<^verbatim>\<open>process\<close>, lines 46 to 86, run without interruption.\<close>

definition process ::
  "(StyleKey \<Rightarrow> bool \<Rightarrow> string list) \<Rightarrow> (Blob \<Rightarrow> string) \<Rightarrow> engine \<Rightarrow> state \<Rightarrow> state \<times> trace" where
  "process buildArgs createObjectURL eng s =
    (case theFile s of
       None \<Rightarrow> (s, [])
     | Some f \<Rightarrow>
         process_rest buildArgs createObjectURL eng f (style s) (slowMo s) (process_start s))"

text \<open>
  Whether the rest of a run gets to \<^verbatim>\<open>setOutputUrl\<close>, line 78: no stage of the
  \<^verbatim>\<open>try\<close> has thrown.
\<close>

definition publishes ::
  "(StyleKey \<Rightarrow> bool \<Rightarrow> string list) \<Rightarrow> (Blob \<Rightarrow> string) \<Rightarrow> engine
     \<Rightarrow> File \<Rightarrow> StyleKey \<Rightarrow> bool \<Rightarrow> state \<Rightarrow> bool" where
  "publishes buildArgs createObjectURL eng f sty slo s =
    (case try_body buildArgs createObjectURL eng f sty slo s of
       (s1, t, None) \<Rightarrow> True
     | (s1, t, Some e) \<Rightarrow> False)"

text \<open>The arguments of the \<^verbatim>\<open>ffmpeg.exec\<close> calls of a trace, in order.\<close>

fun exec_args :: "trace \<Rightarrow> string list list" where
  "exec_args [] = []"
| "exec_args ((Exec a, s) # t) = a # exec_args t"
| "exec_args ((c, s) # t) = exec_args t"

definition primary_args :: "trace \<Rightarrow> string list option" where
  "primary_args t = (case exec_args t of [] \<Rightarrow> None | a # _ \<Rightarrow> Some a)"

section \<open>What the page shows\<close>

text \<open>A JavaScript string is truthy when it is present and not empty.\<close>

definition truthy :: "string option \<Rightarrow> bool" where
  "truthy u = (case u of None \<Rightarrow> False | Some x \<Rightarrow> x \<noteq> [])"

text \<open>
  The parts of the returned markup that depend on the state, lines 88 to 183: the
  name of the chosen file (line 111), the radio button that is checked (line 126), the
  slow-motion checkbox, present for one style only (line 136), the Process button
  (lines 148 and 149), the download link (line 151), the Clear button (line 156), the
  progress line, present while busy (line 160), and the two previews (lines 172, 176).
\<close>

record view =
  fileNamePill :: "string option"
  radioChecked :: "(StyleKey \<times> bool) list"
  slowMoCheckbox :: "bool option"
  processDisabled :: bool
  processLabel :: string
  downloadHref :: "string option"
  clearShown :: bool
  progressLine :: "string option"
  inputPreviewSrc :: "string option"
  outputPreviewSrc :: "string option"

definition render :: "state \<Rightarrow> view" where
  "render s =
    \<lparr>fileNamePill = map_option fileName (theFile s),
     radioChecked = map (\<lambda>e. (key e, style s = key e)) STYLES,
     slowMoCheckbox = (if style s = cinematic then Some (slowMo s) else None),
     processDisabled = (\<not> isReady s),
     processLabel = (if busy s then ''Processing...'' else ''Process Video''),
     downloadHref = (if truthy (outputUrl s) then outputUrl s else None),
     clearShown = truthy (inputUrl s),
     progressLine = (if busy s then Some (progressText s) else None),
     inputPreviewSrc = (if truthy (inputUrl s) then inputUrl s else None),
     outputPreviewSrc = (if truthy (outputUrl s) then outputUrl s else None)\<rparr>"

section \<open>The page as a transition system\<close>

text \<open>
  The state cells hold every update made so far. What is on the page is the last render
  that was committed: its controls, the \<^verbatim>\<open>disabled\<close> attribute of the Process button,
  and the \<^verbatim>\<open>process\<close> callback, which closed over the file, the style and the
  sub-option of that render (the dependency list of line 86). A handler reads the
  committed render and writes the cells; the page commits a render of the cells at some
  later moment.

  \<^verbatim>\<open>process\<close> is asynchronous: between its first \<^verbatim>\<open>await\<close> and its end the page
  keeps handling events. A run that has passed line 49 is pending, with the values its
  callback closed over. The handlers write only the file, the two URLs, the style and
  the sub-option, and a run writes the output URL and clears the busy flag only in its
  last synchronous part, so a pending run is settled in one step, with the engine's
  behaviour in it. Pending runs settle in any order.

  Two fields are not in the program: \<open>origin\<close> is the input file of the latest run
  that wrote the output URL, and \<open>shownOrigin\<close> is its value at the last commit.
\<close>

record run =
  runFile :: File
  runStyle :: StyleKey
  runSlowMo :: bool

record page =
  ui :: state
  shown :: state
  pending :: "run list"
  calls :: trace
  origin :: "File option"
  shownOrigin :: "File option"

datatype event =
    FileInput "File list option"
  | Drop "File list option"
  | SelectStyle StyleKey
  | ToggleSlowMo bool
  | Clear
  | ClickProcess
  | Settle nat engine
  | Commit

definition start :: page where
  "start = \<lparr>ui = initial, shown = initial, pending = [], calls = [],
     origin = None, shownOrigin = None\<rparr>"

text \<open>
  One event. A control that the committed render does not have, or has disabled, does
  nothing: the checkbox (line 136), the Clear button (line 156), the Process button
  (line 148). \<^verbatim>\<open>process\<close> itself tests the file of its closure only (line 47), never
  the busy flag. \<open>Settle i\<close> ends the \<open>i\<close>-th pending run.
\<close>

fun step ::
  "(StyleKey \<Rightarrow> bool \<Rightarrow> string list) \<Rightarrow> (Blob \<Rightarrow> string) \<Rightarrow> page \<Rightarrow> event \<Rightarrow> page" where
  "step buildArgs createObjectURL p (FileInput files) =
     p\<lparr>ui := onFileInput createObjectURL files (ui p)\<rparr>"
| "step buildArgs createObjectURL p (Drop files) =
     p\<lparr>ui := onDrop createObjectURL files (ui p)\<rparr>"
| "step buildArgs createObjectURL p (SelectStyle k) =
     p\<lparr>ui := (ui p)\<lparr>style := k\<rparr>\<rparr>"
| "step buildArgs createObjectURL p (ToggleSlowMo b) =
     (if slowMoCheckbox (render (shown p)) = None then p
      else p\<lparr>ui := (ui p)\<lparr>slowMo := b\<rparr>\<rparr>)"
| "step buildArgs createObjectURL p Clear =
     (if clearShown (render (shown p))
      then p\<lparr>ui := (ui p)\<lparr>inputUrl := None, theFile := None, outputUrl := None\<rparr>\<rparr>
      else p)"
| "step buildArgs createObjectURL p ClickProcess =
     (if processDisabled (render (shown p)) then p
      else case theFile (shown p) of
             None \<Rightarrow> p
           | Some f \<Rightarrow>
               p\<lparr>ui := process_start (ui p),
                 pending := pending p @
                   [\<lparr>runFile = f, runStyle = style (shown p), runSlowMo = slowMo (shown p)\<rparr>]\<rparr>)"
| "step buildArgs createObjectURL p (Settle i eng) =
     (if length (pending p) \<le> i then p
      else
        (let r = pending p ! i in
         case process_rest buildArgs createObjectURL eng
                (runFile r) (runStyle r) (runSlowMo r) (ui p) of
           (s, t) \<Rightarrow>
             p\<lparr>ui := s,
               pending := take i (pending p) @ drop (Suc i) (pending p),
               calls := calls p @ t,
               origin :=
                 (if publishes buildArgs createObjectURL eng
                       (runFile r) (runStyle r) (runSlowMo r) (ui p)
                  then Some (runFile r) else origin p)\<rparr>))"
| "step buildArgs createObjectURL p Commit =
     p\<lparr>shown := ui p, shownOrigin := origin p\<rparr>"

definition play ::
  "(StyleKey \<Rightarrow> bool \<Rightarrow> string list) \<Rightarrow> (Blob \<Rightarrow> string) \<Rightarrow> event list \<Rightarrow> page" where
  "play buildArgs createObjectURL evs = foldl (step buildArgs createObjectURL) start evs"

text \<open>
  A click on Process sees the busy flag when the committed render is not behind the
  cells in it: the flag is clear, or the render on the page has it.
\<close>

fun busy_shown :: "page \<Rightarrow> event \<Rightarrow> bool" where
  "busy_shown p ClickProcess = (\<not> busy (ui p) \<or> busy (shown p))"
| "busy_shown p e = True"

fun clicks_see_busy ::
  "(StyleKey \<Rightarrow> bool \<Rightarrow> string list) \<Rightarrow> (Blob \<Rightarrow> string) \<Rightarrow> page \<Rightarrow> event list \<Rightarrow> bool" where
  "clicks_see_busy buildArgs createObjectURL p [] = True"
| "clicks_see_busy buildArgs createObjectURL p (e # es) =
     (busy_shown p e \<and>
      clicks_see_busy buildArgs createObjectURL (step buildArgs createObjectURL p e) es)"

text \<open>
  An event is quiet when it does not change the chosen file under a run: a pick or an
  effective Clear comes with no run pending, and an effective click on Process comes on
  a render that has the file of the cells.
\<close>

fun quiet :: "page \<Rightarrow> event \<Rightarrow> bool" where
  "quiet p (FileInput files) = (first_file files = None \<or> pending p = [])"
| "quiet p (Drop files) = (first_file files = None \<or> pending p = [])"
| "quiet p Clear = (\<not> clearShown (render (shown p)) \<or> pending p = [])"
| "quiet p ClickProcess =
     (processDisabled (render (shown p)) \<or> theFile (shown p) = theFile (ui p))"
| "quiet p e = True"

fun calm ::
  "(StyleKey \<Rightarrow> bool \<Rightarrow> string list) \<Rightarrow> (Blob \<Rightarrow> string) \<Rightarrow> page \<Rightarrow> event list \<Rightarrow> bool" where
  "calm buildArgs createObjectURL p [] = True"
| "calm buildArgs createObjectURL p (e # es) =
     (quiet p e \<and> calm buildArgs createObjectURL (step buildArgs createObjectURL p e) es)"

text \<open>
  The output preview of a state is current for an origin when it shows nothing, or the
  origin is the chosen file of the state.
\<close>

definition preview_current :: "state \<Rightarrow> File option \<Rightarrow> bool" where
  "preview_current s org =
     (outputPreviewSrc (render s) = None \<or> (org \<noteq> None \<and> org = theFile s))"

section \<open>Sample inputs\<close>

definition clip_a :: File where
  "clip_a = File ''a.mp4'' (Blob [1, 2, 3])"

definition clip_b :: File where
  "clip_b = File ''b.mp4'' (Blob [4, 5])"

definition sample_args :: "StyleKey \<Rightarrow> bool \<Rightarrow> string list" where
  "sample_args k slo =
     [''-i'', ''input.mp4'', ''-vf'',
      (if k = cinematic then (if slo then ''cinematic-slow'' else ''cinematic'')
       else if k = action then ''action''
       else if k = aesthetic then ''aesthetic'' else ''realistic''),
      ''output.mp4'']"

definition sample_url :: "Blob \<Rightarrow> string" where
  "sample_url b = ''blob:'' @ map (\<lambda>n. if n < 5 then CHR ''x'' else CHR ''y'') (bytes b)"

text \<open>An engine on which every call succeeds, and one whose \<^verbatim>\<open>exec\<close> always rejects.\<close>

definition engine_ok :: engine where
  "engine_ok =
    \<lparr>getFFmpeg = ([], Inr ()),
     writeInputFile = (\<lambda>f n. ([], Inr ())),
     exec = (\<lambda>n a. ([''frame=   1 fps=0.0''], Inr ())),
     readOutputFile = (\<lambda>n. ([], Inr (Blob [7, 8, 9])))\<rparr>"

definition engine_exec_fails :: engine where
  "engine_exec_fails =
    \<lparr>getFFmpeg = ([], Inr ()),
     writeInputFile = (\<lambda>f n. ([], Inr ())),
     exec = (\<lambda>n a. ([''No such filter''], Inl (Thrown (Some ''boom'')))),
     readOutputFile = (\<lambda>n. ([], Inr (Blob [7, 8, 9])))\<rparr>"

definition picked :: state where
  "picked = onPickFile sample_url clip_a initial"

section \<open>Invariants of the transition system\<close>

text \<open>At most one run is pending, and the busy flag is set exactly while one is.\<close>

definition one_run :: "page \<Rightarrow> bool" where
  "one_run p = (length (pending p) \<le> 1 \<and> busy (ui p) = (pending p \<noteq> []))"

text \<open>
  Every pending run is on the chosen file, and an output URL, in the cells and on the
  page, was written by a run on the chosen file.
\<close>

definition linked :: "page \<Rightarrow> bool" where
  "linked p =
    (list_all (\<lambda>r. theFile (ui p) = Some (runFile r)) (pending p) \<and>
     (outputUrl (ui p) = None \<or> (origin p \<noteq> None \<and> origin p = theFile (ui p))) \<and>
     (outputUrl (shown p) = None \<or> (shownOrigin p \<noteq> None \<and> shownOrigin p = theFile (shown p))))"

section \<open>Sample event sequences\<close>

text \<open>A file is chosen, the page commits, Process is clicked, and the page commits.\<close>

definition busy_events :: "event list" where
  "busy_events = [Drop (Some [clip_a]), Commit, ClickProcess, Commit]"

text \<open>Process is clicked twice before the page commits the render with the busy flag.\<close>

definition double_click_events :: "event list" where
  "double_click_events = [Drop (Some [clip_a]), Commit, ClickProcess, ClickProcess]"

text \<open>
  A second file is dropped on the page while the run on the first one is pending, and
  the run settles afterwards.
\<close>

definition stale_events :: "event list" where
  "stale_events =
     [Drop (Some [clip_a]), Commit, ClickProcess, Commit, Drop (Some [clip_b]), Commit,
      Settle 0 engine_ok, Commit]"

text \<open>
  A second file is dropped with no run pending, and Process is clicked before the page
  commits the render with the second file.
\<close>

definition stale_closure_events :: "event list" where
  "stale_closure_events =
     [Drop (Some [clip_a]), Commit, Drop (Some [clip_b]), ClickProcess, Commit,
      Settle 0 engine_ok, Commit]"

text \<open>The file is cleared while the run on it is pending.\<close>

definition cleared_events :: "event list" where
  "cleared_events =
     [Drop (Some [clip_a]), Commit, ClickProcess, Commit, Clear, Commit,
      Settle 0 engine_ok, Commit]"

text \<open>One run from the pick to the result, each event on a committed render.\<close>

definition calm_events :: "event list" where
  "calm_events =
     [Drop (Some [clip_a]), Commit, ClickProcess, Commit, Settle 0 engine_ok, Commit]"

section \<open>Facts about the log callback\<close>

lemma matches_here_prefix: "matches_here p m = (\<exists>v. m = p @ v)"
  by (induction p m rule: matches_here.induct) auto

lemma contains_substring_Cons:
  "contains_substring p (c # cs) = ((\<exists>v. c # cs = p @ v) \<or> contains_substring p cs)"
proof
  assume "contains_substring p (c # cs)"
  then obtain u v where uv: "c # cs = u @ p @ v"
    unfolding contains_substring_def by blast
  show "(\<exists>v. c # cs = p @ v) \<or> contains_substring p cs"
  proof (cases u)
    case Nil
    with uv show ?thesis by auto
  next
    case (Cons a u')
    with uv have "cs = u' @ p @ v" by simp
    then show ?thesis unfolding contains_substring_def by blast
  qed
next
  assume "(\<exists>v. c # cs = p @ v) \<or> contains_substring p cs"
  then show "contains_substring p (c # cs)"
  proof
    assume "\<exists>v. c # cs = p @ v"
    then obtain v where "c # cs = [] @ p @ v" by auto
    then show ?thesis unfolding contains_substring_def by blast
  next
    assume "contains_substring p cs"
    then obtain u v where "cs = u @ p @ v" unfolding contains_substring_def by blast
    then have "c # cs = (c # u) @ p @ v" by simp
    then show ?thesis unfolding contains_substring_def by blast
  qed
qed

lemma regex_test_contains: "regex_test p m = contains_substring p m"
proof (induction m)
  case Nil
  show ?case by (auto simp: contains_substring_def matches_here_prefix)
next
  case (Cons c cs)
  then show ?case by (simp add: matches_here_prefix contains_substring_Cons)
qed

lemma emit_only_progress: "emit ms s = s\<lparr>progressText := progressText (emit ms s)\<rparr>"
proof (induction ms arbitrary: s)
  case Nil
  show ?case by (simp add: emit_def)
next
  case (Cons m ms)
  have "emit (m # ms) s = emit ms (onLog m s)" by (simp add: emit_def)
  also have "\<dots> = (onLog m s)\<lparr>progressText := progressText (emit ms (onLog m s))\<rparr>"
    by (rule Cons.IH)
  also have "\<dots> = s\<lparr>progressText := progressText (emit ms (onLog m s))\<rparr>"
    by (simp add: onLog_def)
  finally show ?case by (simp add: emit_def)
qed

lemma emit_busy: "busy (emit ms s) = busy s"
  by (subst emit_only_progress) simp

lemma emit_theFile: "theFile (emit ms s) = theFile s"
  by (subst emit_only_progress) simp

section \<open>Facts about the stages of a run\<close>

lemma exec_stage_busy:
  "exec_stage bA eng sty slo s = (s', t, r) \<Longrightarrow> busy s' = busy s"
  by (auto simp: exec_stage_def Let_def emit_busy split: prod.splits sum.splits)

lemma exec_stage_snapshots:
  "exec_stage bA eng sty slo s = (s', t, r) \<Longrightarrow> list_all (\<lambda>cs. busy (snd cs) = busy s) t"
  by (auto simp: exec_stage_def Let_def emit_busy split: prod.splits sum.splits)

lemma exec_stage_args:
  "exec_stage bA eng sty slo s = (s', t, r) \<Longrightarrow>
     exec_args t = bA sty slo #
       (case snd (exec eng 0 (bA sty slo)) of Inl e \<Rightarrow> [fallbackArgs sty] | Inr u \<Rightarrow> [])"
  by (auto simp: exec_stage_def Let_def split: prod.splits sum.splits)

lemma exec_stage_thrown:
  "exec_stage bA eng sty slo s = (s', t, r) \<Longrightarrow>
     r = (case snd (exec eng 0 (bA sty slo)) of
            Inr u \<Rightarrow> None
          | Inl e \<Rightarrow> (case snd (exec eng 1 (fallbackArgs sty)) of Inr u \<Rightarrow> None | Inl e2 \<Rightarrow> Some e2))"
  by (auto simp: exec_stage_def Let_def split: prod.splits sum.splits)

lemma export_stage_busy:
  "export_stage cou eng s = (s', t, r) \<Longrightarrow> busy s' = busy s"
  by (auto simp: export_stage_def Let_def emit_busy split: prod.splits sum.splits)

lemma export_stage_snapshots:
  "export_stage cou eng s = (s', t, r) \<Longrightarrow> list_all (\<lambda>cs. busy (snd cs) = busy s) t"
  by (auto simp: export_stage_def Let_def emit_busy split: prod.splits sum.splits)

lemma export_stage_args:
  "export_stage cou eng s = (s', t, r) \<Longrightarrow> exec_args t = []"
  by (auto simp: export_stage_def Let_def split: prod.splits sum.splits)

lemma exec_stage_facts:
  "exec_stage bA eng sty slo s = (s', t, r) \<Longrightarrow>
     busy s' = busy s \<and> list_all (\<lambda>cs. busy (snd cs) = busy s) t \<and>
     exec_args t = bA sty slo #
       (case snd (exec eng 0 (bA sty slo)) of Inl e \<Rightarrow> [fallbackArgs sty] | Inr u \<Rightarrow> [])"
  by (simp add: exec_stage_busy exec_stage_snapshots exec_stage_args)

lemma export_stage_facts:
  "export_stage cou eng s = (s', t, r) \<Longrightarrow>
     busy s' = busy s \<and> list_all (\<lambda>cs. busy (snd cs) = busy s) t \<and> exec_args t = []"
  by (simp add: export_stage_busy export_stage_snapshots export_stage_args)

lemma try_body_busy:
  "try_body bA cou eng f sty slo s = (s', t, r) \<Longrightarrow> busy s' = busy s"
  by (auto simp: try_body_def Let_def emit_busy
      split: prod.splits sum.splits option.splits
      dest!: exec_stage_facts export_stage_facts)

lemma try_body_snapshots:
  "try_body bA cou eng f sty slo s = (s', t, r) \<Longrightarrow> list_all (\<lambda>cs. busy (snd cs) = busy s) t"
  by (auto simp: try_body_def Let_def emit_busy
      split: prod.splits sum.splits option.splits
      dest!: exec_stage_facts export_stage_facts)

lemma exec_args_append: "exec_args (t @ u) = exec_args t @ exec_args u"
  by (induction t rule: exec_args.induct) auto

text \<open>The run reaches the exec stage when loading and writing succeed.\<close>

lemma try_body_exec_args:
  "try_body bA cou eng f sty slo s = (s', t, r) \<Longrightarrow>
   exec_args t =
     (case snd (getFFmpeg eng) of
        Inl e \<Rightarrow> []
      | Inr u \<Rightarrow>
         (case snd (writeInputFile eng f ''input.mp4'') of
            Inl e \<Rightarrow> []
          | Inr u \<Rightarrow> bA sty slo #
              (case snd (exec eng 0 (bA sty slo)) of Inl e \<Rightarrow> [fallbackArgs sty] | Inr u \<Rightarrow> [])))"
  by (auto simp: try_body_def Let_def exec_args_append
      split: prod.splits sum.splits option.splits
      dest!: exec_stage_facts export_stage_facts)

lemma try_body_theFile:
  "try_body bA cou eng f sty slo s = (s', t, r) \<Longrightarrow> theFile s' = theFile s"
  by (auto simp: try_body_def Let_def emit_theFile exec_stage_def export_stage_def
      split: prod.splits sum.splits option.splits)

section \<open>Facts about a whole run\<close>

lemma process_rest_busy: "\<not> busy (fst (process_rest bA cou eng f sty slo s))"
  by (simp add: process_rest_def split: prod.splits option.splits)

lemma process_rest_theFile: "theFile (fst (process_rest bA cou eng f sty slo s)) = theFile s"
  by (auto simp: process_rest_def split: prod.splits option.splits dest: try_body_theFile)

lemma process_rest_snapshots:
  "list_all (\<lambda>cs. busy (snd cs) = busy s) (snd (process_rest bA cou eng f sty slo s))"
  by (auto simp: process_rest_def split: prod.splits option.splits dest: try_body_snapshots)

lemma process_rest_exec_args:
  "exec_args (snd (process_rest bA cou eng f sty slo s)) =
     (case snd (getFFmpeg eng) of
        Inl e \<Rightarrow> []
      | Inr u \<Rightarrow>
         (case snd (writeInputFile eng f ''input.mp4'') of
            Inl e \<Rightarrow> []
          | Inr u \<Rightarrow> bA sty slo #
              (case snd (exec eng 0 (bA sty slo)) of Inl e \<Rightarrow> [fallbackArgs sty] | Inr u \<Rightarrow> [])))"
  by (auto simp: process_rest_def split: prod.splits option.splits dest: try_body_exec_args)

lemma primary_args_process:
  "primary_args (snd (process bA cou eng s)) = Some a \<Longrightarrow> a = bA (style s) (slowMo s)"
  by (auto simp: primary_args_def process_def process_rest_exec_args
      split: option.splits sum.splits list.splits)

lemma process_snapshots_busy:
  "list_all (\<lambda>cs. busy (snd cs)) (snd (process bA cou eng s))"
proof (cases "theFile s")
  case None
  then show ?thesis by (simp add: process_def)
next
  case (Some f)
  have "list_all (\<lambda>cs. busy (snd cs) = busy (process_start s))
          (snd (process_rest bA cou eng f (style s) (slowMo s) (process_start s)))"
    by (rule process_rest_snapshots)
  with Some show ?thesis by (simp add: process_def process_start_def)
qed

lemma progress_line_hidden_after_run:
  "progressLine (render (fst (process_rest bA cou eng f sty slo s))) = None"
  by (simp add: render_def process_rest_busy)

text \<open>
  What a run does when both \<^verbatim>\<open>exec\<close> calls reject: two calls and no more, the text
  of line 82 in the progress text, and no progress line on the page.
\<close>

lemma both_exec_calls_reject:
  assumes "theFile s = Some f"
    and "snd (getFFmpeg eng) = Inr ()"
    and "snd (writeInputFile eng f ''input.mp4'') = Inr ()"
    and "snd (exec eng 0 (bA (style s) (slowMo s))) = Inl e1"
    and "snd (exec eng 1 (fallbackArgs (style s))) = Inl e2"
  shows "exec_args (snd (process bA cou eng s)) = [bA (style s) (slowMo s), fallbackArgs (style s)]"
    and "progressText (fst (process bA cou eng s)) = failure_text e2"
    and "progressLine (render (fst (process bA cou eng s))) = None"
proof -
  from assms show "exec_args (snd (process bA cou eng s)) =
      [bA (style s) (slowMo s), fallbackArgs (style s)]"
    by (simp add: process_def process_rest_exec_args)
  from assms show "progressText (fst (process bA cou eng s)) = failure_text e2"
    by (auto simp: process_def process_rest_def try_body_def exec_stage_def Let_def
        split: prod.splits sum.splits option.splits)
  from assms show "progressLine (render (fst (process bA cou eng s))) = None"
    by (simp add: process_def progress_line_hidden_after_run)
qed

section \<open>Facts about the transition system\<close>

lemma emit_outputUrl: "outputUrl (emit ms s) = outputUrl s"
  by (subst emit_only_progress) simp

lemma onFileInput_busy: "busy (onFileInput cou files s) = busy s"
  by (simp add: onFileInput_def onPickFile_def split: option.splits)

lemma onDrop_busy: "busy (onDrop cou files s) = busy s"
  by (simp add: onDrop_def onPickFile_def split: option.splits)

lemma try_body_keeps_outputUrl:
  "try_body bA cou eng f sty slo s = (s', t, Some e) \<Longrightarrow> outputUrl s' = outputUrl s"
  by (auto simp: try_body_def exec_stage_def export_stage_def Let_def emit_outputUrl
      split: prod.splits sum.splits option.splits)

lemma process_rest_keeps_outputUrl:
  "\<not> publishes bA cou eng f sty slo s \<Longrightarrow>
     outputUrl (fst (process_rest bA cou eng f sty slo s)) = outputUrl s"
  by (auto simp: publishes_def process_rest_def split: prod.splits option.splits
      dest: try_body_keeps_outputUrl)

lemma process_first_call:
  "theFile s = Some f \<Longrightarrow>
     \<exists>t. snd (process bA cou eng s) =
       (GetFFmpeg, s\<lparr>busy := True, progressText := ''Loading ffmpeg...''\<rparr>) # t"
  by (auto simp: process_def process_rest_def try_body_def process_start_def Let_def
      split: prod.splits sum.splits option.splits)

text \<open>The invariant \<open>one_run\<close>, for clicks that see the busy flag.\<close>

lemma one_run_start: "one_run start"
  by (simp add: one_run_def start_def initial_def)

lemma one_run_step:
  assumes inv: "one_run p" and seen: "busy_shown p e"
  shows "one_run (step bA cou p e)"
proof (cases e)
  case (Settle i eng)
  show ?thesis
  proof (cases "length (pending p) \<le> i")
    case True
    with inv Settle show ?thesis by simp
  next
    case False
    with inv have i: "i = 0" and len: "length (pending p) = 1"
      by (simp_all add: one_run_def)
    obtain s t where st:
      "process_rest bA cou eng (runFile (pending p ! 0)) (runStyle (pending p ! 0))
         (runSlowMo (pending p ! 0)) (ui p) = (s, t)"
      by (cases "process_rest bA cou eng (runFile (pending p ! 0)) (runStyle (pending p ! 0))
         (runSlowMo (pending p ! 0)) (ui p)")
    have "\<not> busy s"
      using process_rest_busy [of bA cou eng "runFile (pending p ! 0)"
          "runStyle (pending p ! 0)" "runSlowMo (pending p ! 0)" "ui p"] st
      by simp
    with Settle i len st show ?thesis by (simp add: one_run_def Let_def)
  qed
next
  case ClickProcess
  with inv seen show ?thesis
    by (auto simp: one_run_def render_def isReady_def process_start_def split: option.splits)
qed (use inv in \<open>auto simp: one_run_def onFileInput_busy onDrop_busy\<close>)

lemma one_run_foldl:
  "one_run p \<Longrightarrow> clicks_see_busy bA cou p evs \<Longrightarrow> one_run (foldl (step bA cou) p evs)"
  by (induction evs arbitrary: p) (simp_all add: one_run_step)

lemma one_run_play: "clicks_see_busy bA cou start evs \<Longrightarrow> one_run (play bA cou evs)"
  by (simp add: play_def one_run_foldl one_run_start)

lemma click_while_pending:
  "one_run p \<Longrightarrow> pending p \<noteq> [] \<Longrightarrow> busy_shown p ClickProcess \<Longrightarrow>
     step bA cou p ClickProcess = p"
  by (simp add: one_run_def render_def isReady_def)

text \<open>The invariant \<open>linked\<close>, for quiet events.\<close>

lemma linked_start: "linked start"
  by (simp add: linked_def start_def initial_def)

lemma list_all_remove_nth:
  "list_all P xs \<Longrightarrow> list_all P (take i xs @ drop (Suc i) xs)"
  by (auto simp: list_all_iff dest: in_set_takeD in_set_dropD)

lemma linked_pick:
  assumes "linked p" and "first_file files = None \<or> pending p = []"
  shows "linked (p\<lparr>ui := onFileInput cou files (ui p)\<rparr>)"
    and "linked (p\<lparr>ui := onDrop cou files (ui p)\<rparr>)"
  using assms
  by (auto simp: linked_def onFileInput_def onDrop_def onPickFile_def split: option.splits)

lemma linked_settle:
  assumes inv: "linked p" and i: "i < length (pending p)"
  shows "linked (step bA cou p (Settle i eng))"
proof -
  define r where "r = pending p ! i"
  from inv i have fr: "theFile (ui p) = Some (runFile r)"
    by (simp add: linked_def list_all_length r_def)
  obtain s t where st:
    "process_rest bA cou eng (runFile r) (runStyle r) (runSlowMo r) (ui p) = (s, t)"
    by (cases "process_rest bA cou eng (runFile r) (runStyle r) (runSlowMo r) (ui p)")
  have sf: "theFile s = theFile (ui p)"
    using process_rest_theFile [of bA cou eng "runFile r" "runStyle r" "runSlowMo r" "ui p"] st
    by simp
  have so: "\<not> publishes bA cou eng (runFile r) (runStyle r) (runSlowMo r) (ui p) \<Longrightarrow>
      outputUrl s = outputUrl (ui p)"
    using process_rest_keeps_outputUrl [of bA cou eng "runFile r" "runStyle r" "runSlowMo r" "ui p"]
      st by simp
  from inv have "list_all (\<lambda>r. theFile (ui p) = Some (runFile r)) (pending p)"
    by (simp add: linked_def)
  then have rest: "list_all (\<lambda>r. theFile (ui p) = Some (runFile r))
      (take i (pending p) @ drop (Suc i) (pending p))"
    by (rule list_all_remove_nth)
  show ?thesis
  proof (cases "publishes bA cou eng (runFile r) (runStyle r) (runSlowMo r) (ui p)")
    case True
    with inv i st sf fr rest show ?thesis
      by (simp add: linked_def Let_def r_def [symmetric])
  next
    case False
    with inv i st sf so rest show ?thesis
      by (simp add: linked_def Let_def r_def [symmetric])
  qed
qed

lemma linked_step:
  assumes inv: "linked p" and q: "quiet p e"
  shows "linked (step bA cou p e)"
proof (cases e)
  case (FileInput files)
  with inv q show ?thesis by (simp add: linked_pick)
next
  case (Drop files)
  with inv q show ?thesis by (simp add: linked_pick)
next
  case (SelectStyle k)
  with inv show ?thesis by (simp add: linked_def)
next
  case (ToggleSlowMo b)
  with inv show ?thesis by (simp add: linked_def)
next
  case Clear
  with inv q show ?thesis by (auto simp: linked_def)
next
  case ClickProcess
  with inv q show ?thesis
    by (auto simp: linked_def process_start_def split: option.splits)
next
  case (Settle i eng)
  show ?thesis
  proof (cases "i < length (pending p)")
    case True
    with inv Settle show ?thesis by (simp only: linked_settle)
  next
    case False
    with inv Settle show ?thesis by simp
  qed
next
  case Commit
  with inv show ?thesis by (simp add: linked_def)
qed

lemma linked_foldl:
  "linked p \<Longrightarrow> calm bA cou p evs \<Longrightarrow> linked (foldl (step bA cou) p evs)"
  by (induction evs arbitrary: p) (simp_all add: linked_step)

lemma linked_play: "calm bA cou start evs \<Longrightarrow> linked (play bA cou evs)"
  by (simp add: play_def linked_foldl linked_start)

lemma linked_preview:
  "linked p \<Longrightarrow> preview_current (ui p) (origin p) \<and> preview_current (shown p) (shownOrigin p)"
  by (auto simp: linked_def preview_current_def render_def truthy_def)

section \<open>Facts about the sample inputs\<close>

lemma process_ok_picked:
  "exec_args (snd (process sample_args sample_url engine_ok picked)) = [sample_args cinematic True]"
  by (simp add: process_def process_rest_exec_args picked_def onPickFile_def initial_def
      engine_ok_def)

lemma process_fails_picked_b:
  "exec_args (snd (process sample_args sample_url engine_exec_fails
       (onPickFile sample_url clip_b initial))) = [sample_args cinematic True, fallbackArgs cinematic]"
  by (simp add: process_def process_rest_exec_args onPickFile_def initial_def
      engine_exec_fails_def)

lemmas sample_defs =
  play_def start_def initial_def onDrop_def first_file_def onPickFile_def render_def
  isReady_def truthy_def process_start_def picked_def clip_a_def clip_b_def sample_url_def

lemma play_busy_events:
  "play sample_args sample_url busy_events =
     \<lparr>ui = process_start picked, shown = process_start picked,
      pending = [\<lparr>runFile = clip_a, runStyle = cinematic, runSlowMo = True\<rparr>],
      calls = [], origin = None, shownOrigin = None\<rparr>"
  by (simp add: busy_events_def sample_defs)

lemma busy_events_seen: "clicks_see_busy sample_args sample_url start busy_events"
  by (simp add: busy_events_def sample_defs)

lemma play_double_click_events:
  "play sample_args sample_url double_click_events =
     \<lparr>ui = process_start picked, shown = picked,
      pending = [\<lparr>runFile = clip_a, runStyle = cinematic, runSlowMo = True\<rparr>,
                 \<lparr>runFile = clip_a, runStyle = cinematic, runSlowMo = True\<rparr>],
      calls = [], origin = None, shownOrigin = None\<rparr>"
  by (simp add: double_click_events_def sample_defs)

lemma process_rest_ok:
  "process_rest sample_args sample_url engine_ok f sty slo s =
     (s\<lparr>outputUrl := Some ''blob:yyy'', progressText := ''Done'', busy := False\<rparr>,
      [(GetFFmpeg, s),
       (WriteInputFile f ''input.mp4'', s\<lparr>progressText := ''Preparing input...''\<rparr>),
       (Exec (sample_args sty slo), s\<lparr>progressText := ''Applying style...''\<rparr>),
       (ReadOutputFile ''output.mp4'', s\<lparr>progressText := ''Exporting...''\<rparr>)])"
  by (simp add: process_rest_def try_body_def exec_stage_def export_stage_def engine_ok_def
      emit_def onLog_def sample_url_def Let_def)

lemma publishes_ok: "publishes sample_args sample_url engine_ok f sty slo s"
  by (simp add: publishes_def try_body_def exec_stage_def export_stage_def engine_ok_def Let_def)

lemma double_click_not_seen:
  "\<not> clicks_see_busy sample_args sample_url start double_click_events"
  by (simp add: double_click_events_def sample_defs)

lemma double_click_calls:
  "length (calls (play sample_args sample_url
      (double_click_events @ [Settle 0 engine_ok, Settle 0 engine_ok]))) = 8"
proof -
  have "play sample_args sample_url (double_click_events @ [Settle 0 engine_ok, Settle 0 engine_ok])
      = foldl (step sample_args sample_url) (play sample_args sample_url double_click_events)
          [Settle 0 engine_ok, Settle 0 engine_ok]"
    by (simp add: play_def)
  then show ?thesis
    by (simp add: play_double_click_events process_rest_ok Let_def)
qed

lemma picked_b:
  "onPickFile sample_url clip_b (process_start picked) =
     \<lparr>theFile = Some clip_b, inputUrl = Some ''blob:xy'', outputUrl = None, busy = True,
      progressText = ''Loading ffmpeg...'', style = cinematic, slowMo = True\<rparr>"
  by (simp add: sample_defs)

lemma play_stale_events:
  "play sample_args sample_url stale_events =
     \<lparr>ui = \<lparr>theFile = Some clip_b, inputUrl = Some ''blob:xy'', outputUrl = Some ''blob:yyy'',
             busy = False, progressText = ''Done'', style = cinematic, slowMo = True\<rparr>,
      shown = \<lparr>theFile = Some clip_b, inputUrl = Some ''blob:xy'', outputUrl = Some ''blob:yyy'',
             busy = False, progressText = ''Done'', style = cinematic, slowMo = True\<rparr>,
      pending = [],
      calls = snd (process_rest sample_args sample_url engine_ok clip_a cinematic True
                (onPickFile sample_url clip_b (process_start picked))),
      origin = Some clip_a, shownOrigin = Some clip_a\<rparr>"
  by (simp add: stale_events_def process_rest_ok publishes_ok Let_def sample_defs)

lemma play_stale_closure_events:
  "play sample_args sample_url stale_closure_events =
     \<lparr>ui = \<lparr>theFile = Some clip_b, inputUrl = Some ''blob:xy'', outputUrl = Some ''blob:yyy'',
             busy = False, progressText = ''Done'', style = cinematic, slowMo = True\<rparr>,
      shown = \<lparr>theFile = Some clip_b, inputUrl = Some ''blob:xy'', outputUrl = Some ''blob:yyy'',
             busy = False, progressText = ''Done'', style = cinematic, slowMo = True\<rparr>,
      pending = [],
      calls = snd (process_rest sample_args sample_url engine_ok clip_a cinematic True
                (onPickFile sample_url clip_b (process_start picked))),
      origin = Some clip_a, shownOrigin = Some clip_a\<rparr>"
  by (simp add: stale_closure_events_def process_rest_ok publishes_ok Let_def sample_defs)

lemma play_cleared_events:
  "play sample_args sample_url cleared_events =
     \<lparr>ui = \<lparr>theFile = None, inputUrl = None, outputUrl = Some ''blob:yyy'',
             busy = False, progressText = ''Done'', style = cinematic, slowMo = True\<rparr>,
      shown = \<lparr>theFile = None, inputUrl = None, outputUrl = Some ''blob:yyy'',
             busy = False, progressText = ''Done'', style = cinematic, slowMo = True\<rparr>,
      pending = [],
      calls = snd (process_rest sample_args sample_url engine_ok clip_a cinematic True
                ((process_start picked)\<lparr>inputUrl := None, theFile := None, outputUrl := None\<rparr>)),
      origin = Some clip_a, shownOrigin = Some clip_a\<rparr>"
  by (simp add: cleared_events_def process_rest_ok publishes_ok Let_def sample_defs)

lemma cleared_events_seen: "clicks_see_busy sample_args sample_url start cleared_events"
  by (simp add: cleared_events_def process_rest_ok publishes_ok Let_def sample_defs)

lemma cleared_events_not_calm: "\<not> calm sample_args sample_url start cleared_events"
  by (simp add: cleared_events_def sample_defs)

lemma play_calm_events:
  "play sample_args sample_url calm_events =
     \<lparr>ui = \<lparr>theFile = Some clip_a, inputUrl = Some ''blob:xxx'', outputUrl = Some ''blob:yyy'',
             busy = False, progressText = ''Done'', style = cinematic, slowMo = True\<rparr>,
      shown = \<lparr>theFile = Some clip_a, inputUrl = Some ''blob:xxx'', outputUrl = Some ''blob:yyy'',
             busy = False, progressText = ''Done'', style = cinematic, slowMo = True\<rparr>,
      pending = [],
      calls = snd (process_rest sample_args sample_url engine_ok clip_a cinematic True
                (process_start picked)),
      origin = Some clip_a, shownOrigin = Some clip_a\<rparr>"
  by (simp add: calm_events_def process_rest_ok publishes_ok Let_def sample_defs)

lemma calm_events_calm: "calm sample_args sample_url start calm_events"
  by (simp add: calm_events_def process_rest_ok publishes_ok Let_def sample_defs)

lemma stale_events_seen: "clicks_see_busy sample_args sample_url start stale_events"
  by (simp add: stale_events_def process_rest_ok publishes_ok Let_def sample_defs)

lemma stale_closure_events_seen:
  "clicks_see_busy sample_args sample_url start stale_closure_events"
  by (simp add: stale_closure_events_def process_rest_ok publishes_ok Let_def sample_defs)

lemma clips_differ: "clip_a \<noteq> clip_b"
  by (simp add: clip_a_def clip_b_def)

lemma stale_events_not_calm: "\<not> calm sample_args sample_url start stale_events"
  by (simp add: stale_events_def sample_defs)

lemma stale_closure_events_not_calm:
  "\<not> calm sample_args sample_url start stale_closure_events"
  by (simp add: stale_closure_events_def sample_defs)

section \<open>The claims\<close>

text \<open>
  C1. When the primary \<^verbatim>\<open>exec\<close> call rejects, one fallback call is made; when that
  rejects too, the run makes no further call and writes \<open>Failed: boom\<close> to the
  progress text. The run ends with the busy flag cleared, and the page shows the
  progress text only while the flag is set (line 160): the message is not on the page.
\<close>

theorem failed_message_not_rendered:
  "exec_args (snd (process sample_args sample_url engine_exec_fails picked)) =
     [sample_args cinematic True, fallbackArgs cinematic] \<and>
   progressText (fst (process sample_args sample_url engine_exec_fails picked)) = ''Failed: boom'' \<and>
   \<not> busy (fst (process sample_args sample_url engine_exec_fails picked)) \<and>
   progressLine (render (fst (process sample_args sample_url engine_exec_fails picked))) = None"
  by (simp add: process_def process_rest_def try_body_def exec_stage_def picked_def
      onPickFile_def initial_def engine_exec_fails_def process_start_def failure_text_def
      render_def emit_def onLog_def Let_def)

text \<open>
  C2, as amended. One processing run at a time, as long as Process is not clicked while
  the busy flag is set and the render on the page does not have it yet. The Process
  button of a render is disabled exactly when its busy flag is set or it has no file;
  \<^verbatim>\<open>process\<close> with a file sets the busy flag and then makes its first call into the
  engine, and every call of the run is issued with the flag set; after any sequence of
  events whose clicks see the busy flag at most one run is pending, the flag is set
  exactly while one is, and a click that sees the flag while a run is pending changes
  nothing.
\<close>

theorem single_run_at_a_time:
  "processDisabled (render s) = (busy s \<or> theFile s = None) \<and>
   (theFile s \<noteq> None \<longrightarrow>
      (\<exists>t. snd (process bA cou eng s) =
         (GetFFmpeg, s\<lparr>busy := True, progressText := ''Loading ffmpeg...''\<rparr>) # t)) \<and>
   list_all (\<lambda>cs. busy (snd cs)) (snd (process bA cou eng s)) \<and>
   (clicks_see_busy bA cou start evs \<longrightarrow>
      length (pending (play bA cou evs)) \<le> 1 \<and>
      busy (ui (play bA cou evs)) = (pending (play bA cou evs) \<noteq> []) \<and>
      (pending (play bA cou evs) \<noteq> [] \<and> busy_shown (play bA cou evs) ClickProcess \<longrightarrow>
         step bA cou (play bA cou evs) ClickProcess = play bA cou evs))"
proof -
  have "processDisabled (render s) = (busy s \<or> theFile s = None)"
    by (auto simp: render_def isReady_def)
  moreover have "theFile s \<noteq> None \<longrightarrow>
      (\<exists>t. snd (process bA cou eng s) =
         (GetFFmpeg, s\<lparr>busy := True, progressText := ''Loading ffmpeg...''\<rparr>) # t)"
    using process_first_call [of s _ bA cou eng] by blast
  moreover have "list_all (\<lambda>cs. busy (snd cs)) (snd (process bA cou eng s))"
    by (rule process_snapshots_busy)
  moreover have "length (pending (play bA cou evs)) \<le> 1 \<and>
      busy (ui (play bA cou evs)) = (pending (play bA cou evs) \<noteq> []) \<and>
      (pending (play bA cou evs) \<noteq> [] \<and> busy_shown (play bA cou evs) ClickProcess \<longrightarrow>
         step bA cou (play bA cou evs) ClickProcess = play bA cou evs)"
    if seen: "clicks_see_busy bA cou start evs"
  proof -
    from seen have inv: "one_run (play bA cou evs)" by (rule one_run_play)
    then have "length (pending (play bA cou evs)) \<le> 1"
      and "busy (ui (play bA cou evs)) = (pending (play bA cou evs) \<noteq> [])"
      by (simp_all add: one_run_def)
    moreover have "pending (play bA cou evs) \<noteq> [] \<and> busy_shown (play bA cou evs) ClickProcess \<longrightarrow>
         step bA cou (play bA cou evs) ClickProcess = play bA cou evs"
      using click_while_pending [OF inv] by blast
    ultimately show ?thesis by blast
  qed
  ultimately show ?thesis by blast
qed

theorem single_run_at_a_time_witness:
  "theFile picked \<noteq> None \<and>
   hd (snd (process sample_args sample_url engine_ok picked)) =
     (GetFFmpeg, picked\<lparr>busy := True, progressText := ''Loading ffmpeg...''\<rparr>) \<and>
   clicks_see_busy sample_args sample_url start busy_events \<and>
   pending (play sample_args sample_url busy_events) \<noteq> [] \<and>
   busy_shown (play sample_args sample_url busy_events) ClickProcess \<and>
   length (pending (play sample_args sample_url busy_events)) = 1 \<and>
   busy (ui (play sample_args sample_url busy_events)) \<and>
   step sample_args sample_url (play sample_args sample_url busy_events) ClickProcess =
     play sample_args sample_url busy_events"
proof -
  have f: "theFile picked \<noteq> None"
    by (simp add: picked_def onPickFile_def)
  have p: "pending (play sample_args sample_url busy_events) \<noteq> []"
    "length (pending (play sample_args sample_url busy_events)) = 1"
    "busy_shown (play sample_args sample_url busy_events) ClickProcess"
    by (simp_all add: play_busy_events process_start_def)
  from single_run_at_a_time [of picked sample_args sample_url engine_ok busy_events]
    f p busy_events_seen
  show ?thesis by auto
qed

text \<open>
  C2 as stated fails: \<^verbatim>\<open>process\<close> does not read the busy flag, and the button is
  disabled only in a render committed after the flag is set. Two clicks on the same
  render start two runs, which make eight calls into the engine.
\<close>

theorem two_clicks_before_commit:
  "length (pending (play sample_args sample_url double_click_events)) = 2 \<and>
   map runFile (pending (play sample_args sample_url double_click_events)) = [clip_a, clip_a] \<and>
   \<not> busy (shown (play sample_args sample_url double_click_events)) \<and>
   busy (ui (play sample_args sample_url double_click_events)) \<and>
   length (calls (play sample_args sample_url
      (double_click_events @ [Settle 0 engine_ok, Settle 0 engine_ok]))) = 8"
  by (simp add: play_double_click_events double_click_calls picked_def onPickFile_def
      initial_def process_start_def)

text \<open>
  C4. The style catalog is a list of four entries with the keys \<open>cinematic\<close>,
  \<open>action\<close>, \<open>aesthetic\<close>, \<open>realistic\<close> in this order, all different, each
  with a name and a description that are not empty. The slow-motion checkbox, a boolean,
  is on the page exactly when the selected key is \<open>cinematic\<close>, the one key of the
  catalog that has it.
\<close>

theorem style_catalog:
  "length STYLES = 4 \<and>
   map key STYLES = [cinematic, action, aesthetic, realistic] \<and>
   distinct (map key STYLES) \<and>
   list_all (\<lambda>e. name e \<noteq> [] \<and> desc e \<noteq> []) STYLES \<and>
   (slowMoCheckbox (render s) \<noteq> None) = (style s = cinematic) \<and>
   slowMoCheckbox (render (s\<lparr>style := cinematic\<rparr>)) = Some (slowMo s) \<and>
   filter (\<lambda>k. slowMoCheckbox (render (s\<lparr>style := k\<rparr>)) \<noteq> None) (map key STYLES) = [cinematic]"
  by (simp add: STYLES_def render_def)

text \<open>
  C5. When a file is chosen and the engine loads and takes the input, the first
  \<^verbatim>\<open>exec\<close> call of the run gets the list of \<^verbatim>\<open>buildArgs\<close> for the selected style
  and sub-option, as it is; the only other \<^verbatim>\<open>exec\<close> call is the fallback, made when
  the first one rejects.
\<close>

theorem buildArgs_fed_verbatim:
  assumes "theFile s = Some f"
    and "snd (getFFmpeg eng) = Inr ()"
    and "snd (writeInputFile eng f ''input.mp4'') = Inr ()"
  shows "exec_args (snd (process bA cou eng s)) =
           bA (style s) (slowMo s) #
             (case snd (exec eng 0 (bA (style s) (slowMo s))) of
                Inl e \<Rightarrow> [fallbackArgs (style s)]
              | Inr u \<Rightarrow> [])"
  using assms by (simp add: process_def process_rest_exec_args)

theorem buildArgs_fed_verbatim_witness:
  "theFile picked = Some clip_a \<and>
   snd (getFFmpeg engine_exec_fails) = Inr () \<and>
   snd (writeInputFile engine_exec_fails clip_a ''input.mp4'') = Inr () \<and>
   exec_args (snd (process sample_args sample_url engine_exec_fails picked)) =
     [sample_args cinematic True, fallbackArgs cinematic] \<and>
   exec_args (snd (process sample_args sample_url engine_ok picked)) =
     [[''-i'', ''input.mp4'', ''-vf'', ''cinematic-slow'', ''output.mp4'']]"
  using buildArgs_fed_verbatim [of picked clip_a engine_exec_fails sample_args sample_url]
    buildArgs_fed_verbatim [of picked clip_a engine_ok sample_args sample_url]
  by (simp add: picked_def onPickFile_def initial_def engine_exec_fails_def engine_ok_def
      sample_args_def)

text \<open>
  C6. The primary argument list is a function of the style key and the slow-motion
  sub-option alone: two runs with the same selection, on any two states, files, engines
  and URL makers, hand the same list to their first \<^verbatim>\<open>exec\<close> call, the list of
  \<^verbatim>\<open>buildArgs\<close> for the selection.
\<close>

theorem primary_args_function_of_style_selection:
  assumes "style s1 = style s2" and "slowMo s1 = slowMo s2"
    and "primary_args (snd (process bA cou1 eng1 s1)) = Some a1"
    and "primary_args (snd (process bA cou2 eng2 s2)) = Some a2"
  shows "a1 = a2 \<and> a1 = bA (style s1) (slowMo s1)"
  using assms primary_args_process [of bA cou1 eng1 s1 a1] primary_args_process [of bA cou2 eng2 s2 a2]
  by simp

theorem primary_args_function_of_style_selection_witness:
  "style picked = style (onPickFile sample_url clip_b initial) \<and>
   slowMo picked = slowMo (onPickFile sample_url clip_b initial) \<and>
   clip_a \<noteq> clip_b \<and>
   primary_args (snd (process sample_args sample_url engine_ok picked)) =
     Some (sample_args cinematic True) \<and>
   primary_args (snd (process sample_args sample_url engine_exec_fails
       (onPickFile sample_url clip_b initial))) = Some (sample_args cinematic True)"
proof -
  have sel: "style picked = style (onPickFile sample_url clip_b initial)"
    "slowMo picked = slowMo (onPickFile sample_url clip_b initial)"
    by (simp_all add: picked_def onPickFile_def)
  have diff: "clip_a \<noteq> clip_b"
    by (simp add: clip_a_def clip_b_def)
  have p1: "primary_args (snd (process sample_args sample_url engine_ok picked)) =
      Some (sample_args cinematic True)"
    by (simp add: primary_args_def process_ok_picked)
  have p2: "primary_args (snd (process sample_args sample_url engine_exec_fails
       (onPickFile sample_url clip_b initial))) = Some (sample_args cinematic True)"
    by (simp add: primary_args_def process_fails_picked_b)
  from primary_args_function_of_style_selection [OF sel p1 p2] sel diff p1 p2
  show ?thesis by simp
qed

text \<open>
  C7. The progress text is scraped from the engine's log lines: the callback sets it to
  a log message exactly when the message contains the substring \<open>frame=\<close>, and
  leaves the state as it is otherwise.
\<close>

theorem progress_text_scraped_from_frame_lines:
  "onLog m s = (if contains_substring ''frame='' m then s\<lparr>progressText := m\<rparr> else s)"
  by (simp add: onLog_def regex_test_contains)

text \<open>
  C8. A call of \<^verbatim>\<open>process\<close> ends with the busy flag cleared, whatever the engine
  does at any stage: when a file is chosen, and also when none is and the flag was clear
  before. With a file chosen the Process button is enabled again. In the transition
  system, settling any pending run clears the flag.
\<close>

theorem busy_reset_after_every_run:
  "(theFile s \<noteq> None \<or> \<not> busy s \<longrightarrow> \<not> busy (fst (process bA cou eng s))) \<and>
   (theFile s \<noteq> None \<longrightarrow> \<not> processDisabled (render (fst (process bA cou eng s)))) \<and>
   (i < length (pending p) \<longrightarrow> \<not> busy (ui (step bA cou p (Settle i eng))))"
proof -
  have "\<not> busy (fst (process bA cou eng s))" if "theFile s \<noteq> None \<or> \<not> busy s"
    using that by (cases "theFile s") (simp_all add: process_def process_rest_busy)
  moreover have "\<not> processDisabled (render (fst (process bA cou eng s)))" if "theFile s \<noteq> None"
    using that
    by (auto simp: process_def render_def isReady_def process_rest_busy process_rest_theFile
        process_start_def)
  moreover have "\<not> busy (ui (step bA cou p (Settle i eng)))" if "i < length (pending p)"
  proof -
    define r where "r = pending p ! i"
    obtain s' t where st:
      "process_rest bA cou eng (runFile r) (runStyle r) (runSlowMo r) (ui p) = (s', t)"
      by (cases "process_rest bA cou eng (runFile r) (runStyle r) (runSlowMo r) (ui p)")
    have "\<not> busy s'"
      using process_rest_busy [of bA cou eng "runFile r" "runStyle r" "runSlowMo r" "ui p"] st
      by simp
    with that st show ?thesis by (simp add: Let_def r_def [symmetric])
  qed
  ultimately show ?thesis by blast
qed

theorem busy_reset_after_every_run_witness:
  "theFile picked \<noteq> None \<and>
   \<not> busy (fst (process sample_args sample_url engine_exec_fails picked)) \<and>
   \<not> processDisabled (render (fst (process sample_args sample_url engine_exec_fails picked))) \<and>
   0 < length (pending (play sample_args sample_url busy_events)) \<and>
   busy (ui (play sample_args sample_url busy_events)) \<and>
   \<not> busy (ui (step sample_args sample_url (play sample_args sample_url busy_events)
       (Settle 0 engine_exec_fails)))"
proof -
  have f: "theFile picked \<noteq> None"
    by (simp add: picked_def onPickFile_def)
  have p: "0 < length (pending (play sample_args sample_url busy_events))"
    and b: "busy (ui (play sample_args sample_url busy_events))"
    by (simp_all add: play_busy_events process_start_def)
  from busy_reset_after_every_run [of picked sample_args sample_url engine_exec_fails 0
      "play sample_args sample_url busy_events"] f p b
  show ?thesis by blast
qed

text \<open>
  C9, as amended. Picking a file, through the file input or by a drop, stores the file
  and the URL of its preview and resets the output URL; the style, the sub-option, the
  busy flag and the progress text stay as they are, and right after the pick there is no
  output preview and no download link. The output preview never shows a result made
  from a file other than the chosen one, in the cells and on the page, as long as the
  events are calm: no file is picked or cleared while a run is pending, and a run is
  started from a render that has the chosen file.
\<close>

theorem pick_file_frame:
  "theFile (onPickFile cou f s) = Some f \<and>
   inputUrl (onPickFile cou f s) = Some (cou (fileBlob f)) \<and>
   outputUrl (onPickFile cou f s) = None \<and>
   style (onPickFile cou f s) = style s \<and>
   slowMo (onPickFile cou f s) = slowMo s \<and>
   busy (onPickFile cou f s) = busy s \<and>
   progressText (onPickFile cou f s) = progressText s \<and>
   onFileInput cou (Some (f # fs)) s = onPickFile cou f s \<and>
   onDrop cou (Some (f # fs)) s = onPickFile cou f s \<and>
   outputPreviewSrc (render (onPickFile cou f s)) = None \<and>
   downloadHref (render (onPickFile cou f s)) = None \<and>
   (calm bA cou start evs \<longrightarrow>
      preview_current (ui (play bA cou evs)) (origin (play bA cou evs)) \<and>
      preview_current (shown (play bA cou evs)) (shownOrigin (play bA cou evs)))"
proof -
  have "preview_current (ui (play bA cou evs)) (origin (play bA cou evs)) \<and>
      preview_current (shown (play bA cou evs)) (shownOrigin (play bA cou evs))"
    if "calm bA cou start evs"
    using that by (intro linked_preview linked_play)
  then show ?thesis
    by (simp add: onPickFile_def onFileInput_def onDrop_def first_file_def render_def truthy_def)
qed

theorem pick_file_frame_witness:
  "calm sample_args sample_url start calm_events \<and>
   outputPreviewSrc (render (shown (play sample_args sample_url calm_events))) = Some ''blob:yyy'' \<and>
   shownOrigin (play sample_args sample_url calm_events) = Some clip_a \<and>
   theFile (shown (play sample_args sample_url calm_events)) = Some clip_a \<and>
   preview_current (ui (play sample_args sample_url calm_events))
     (origin (play sample_args sample_url calm_events)) \<and>
   preview_current (shown (play sample_args sample_url calm_events))
     (shownOrigin (play sample_args sample_url calm_events))"
proof -
  have shown_a: "outputPreviewSrc (render (shown (play sample_args sample_url calm_events))) =
      Some ''blob:yyy''"
    "shownOrigin (play sample_args sample_url calm_events) = Some clip_a"
    "theFile (shown (play sample_args sample_url calm_events)) = Some clip_a"
    by (simp_all add: play_calm_events render_def truthy_def)
  from pick_file_frame [of sample_url clip_a initial "[]" sample_args calm_events]
    calm_events_calm shown_a
  show ?thesis by blast
qed

text \<open>
  C9 as stated fails, in three ways. After \<open>stale_events\<close> a run that was pending
  when the second file was picked has published its result; after
  \<open>stale_closure_events\<close> a run started from the render of the first file, after the
  second was picked, has. In both the page has the second file and shows the result of
  the run on the first one. After \<open>cleared_events\<close> the page has no file and shows
  the result of the run on the file that was cleared.
\<close>

theorem stale_output_after_new_pick:
  "theFile (shown (play sample_args sample_url stale_events)) = Some clip_b \<and>
   clip_a \<noteq> clip_b \<and>
   map fst (calls (play sample_args sample_url stale_events)) =
     [GetFFmpeg, WriteInputFile clip_a ''input.mp4'', Exec (sample_args cinematic True),
      ReadOutputFile ''output.mp4''] \<and>
   outputUrl (ui (play sample_args sample_url stale_events)) = Some (sample_url (Blob [7, 8, 9])) \<and>
   outputPreviewSrc (render (shown (play sample_args sample_url stale_events))) = Some ''blob:yyy'' \<and>
   shownOrigin (play sample_args sample_url stale_events) = Some clip_a \<and>
   \<not> preview_current (shown (play sample_args sample_url stale_events))
        (shownOrigin (play sample_args sample_url stale_events)) \<and>
   clicks_see_busy sample_args sample_url start stale_events \<and>
   theFile (shown (play sample_args sample_url stale_closure_events)) = Some clip_b \<and>
   map fst (calls (play sample_args sample_url stale_closure_events)) =
     [GetFFmpeg, WriteInputFile clip_a ''input.mp4'', Exec (sample_args cinematic True),
      ReadOutputFile ''output.mp4''] \<and>
   outputPreviewSrc (render (shown (play sample_args sample_url stale_closure_events))) =
     Some ''blob:yyy'' \<and>
   \<not> preview_current (shown (play sample_args sample_url stale_closure_events))
        (shownOrigin (play sample_args sample_url stale_closure_events)) \<and>
   clicks_see_busy sample_args sample_url start stale_closure_events \<and>
   theFile (shown (play sample_args sample_url cleared_events)) = None \<and>
   outputPreviewSrc (render (shown (play sample_args sample_url cleared_events))) =
     Some ''blob:yyy'' \<and>
   shownOrigin (play sample_args sample_url cleared_events) = Some clip_a \<and>
   clicks_see_busy sample_args sample_url start cleared_events"
  by (simp add: play_stale_events play_stale_closure_events play_cleared_events
      stale_events_seen stale_closure_events_seen cleared_events_seen clips_differ
      process_rest_ok preview_current_def render_def truthy_def sample_url_def)

text \<open>
  C10. With no file chosen, \<^verbatim>\<open>process\<close> returns the state as it was and makes no
  call into the engine.
\<close>

theorem process_without_file_does_nothing:
  "theFile s = None \<Longrightarrow> process bA cou eng s = (s, [])"
  by (simp add: process_def)

theorem process_without_file_does_nothing_witness:
  "theFile initial = None \<and> process sample_args sample_url engine_ok initial = (initial, [])"
  using process_without_file_does_nothing [of initial sample_args sample_url engine_ok]
  by (simp add: initial_def)

end
